theory Spec2Isabelle
  imports Main "HOL-Library.Word"
begin

unbundle bit_operations_syntax

section \<open>Block header of lib/block/blockheader.js\<close>

subsection \<open>Constants\<close>

definition GENESIS_BITS :: nat where
  "GENESIS_BITS = 0x1d00ffff"

definition QUARK_GENESIS_BITS :: nat where
  "QUARK_GENESIS_BITS = 0x1f7fffff"

definition LOCKTIME_THRESHOLD :: nat where
  "LOCKTIME_THRESHOLD = 500000000"

subsection \<open>The variant detector\<close>

text \<open>
  \<^verbatim>\<open>BlockHeader._isBitcoinQuark(arg)\<close>. The argument is the height field of a header or
  the number read from the shared wire slot: \<open>None\<close> is JavaScript's \<open>undefined\<close> (a
  legacy header has no height), \<open>Some n\<close> a number. \<open>!arg\<close> holds for \<open>undefined\<close> and
  for \<open>0\<close>.
\<close>

definition isBitcoinQuark :: "nat option \<Rightarrow> bool" where
  "isBitcoinQuark arg =
     (case arg of
        None \<Rightarrow> False
      | Some n \<Rightarrow>
          if n = 0 then False
          else if n > LOCKTIME_THRESHOLD then False
          else True)"

subsection \<open>JavaScript values, errors\<close>

type_synonym byte = "8 word"

text \<open>
  The values a header field or a field of a plain object can hold: \<open>undefined\<close>, a
  number (the model keeps to the non-negative integers), a string, a Buffer.
\<close>

datatype jsval = Undefined | Num nat | Str string | Buf "byte list"

text \<open>The exceptions the code and its collaborators raise, as values.\<close>

datatype error = TypeError | ArgumentError | StateError | DecodeError | RangeError

definition bindE :: "error + 'a \<Rightarrow> ('a \<Rightarrow> error + 'b) \<Rightarrow> error + 'b" where
  "bindE m f = (case m of Inl e \<Rightarrow> Inl e | Inr x \<Rightarrow> f x)"

subsection \<open>Header data\<close>

text \<open>
  The fields both the plain object (\<open>info\<close>, \<open>data\<close>) and the \<open>BlockHeader\<close> instance
  carry. A key that an object does not have reads as \<open>undefined\<close>. The numbers
  \<open>version\<close>, \<open>time\<close> and \<open>bits\<close> are non-negative integers, which the writer checks
  against 32 bits; \<open>height\<close> is a number or \<open>undefined\<close>; \<open>timestamp\<close> is the copy of
  \<open>time\<close> that \<open>_fromObject\<close> and the constructor make.
\<close>

record fields =
  version :: nat
  prevHash :: jsval
  merkleRoot :: jsval
  height :: "nat option"
  reserved :: jsval
  time :: nat
  timestamp :: "nat option"
  bits :: nat
  nonce :: jsval
  solution :: jsval

text \<open>A plain object: the fields and the key \<open>hash\<close>.\<close>

record info = fields +
  hash :: "string option"

text \<open>
  A \<open>BlockHeader\<close> instance: the fields and the private slot \<open>this._id\<close> that the
  getter of \<open>id\<close> and \<open>hash\<close> fills.
\<close>

record BlockHeader = fields +
  id_cache :: "string option"

subsection \<open>Node's Buffer: hex strings\<close>

definition hexdigit :: "nat \<Rightarrow> char" where
  "hexdigit n = ''0123456789abcdef'' ! n"

text \<open>\<^verbatim>\<open>buf.toString('hex')\<close>: two lower-case digits for each byte.\<close>

fun toString_hex :: "byte list \<Rightarrow> string" where
  "toString_hex [] = []"
| "toString_hex (b # bs) =
     hexdigit (unat b div 16) # hexdigit (unat b mod 16) # toString_hex bs"

definition hexval :: "char \<Rightarrow> nat option" where
  "hexval c =
     (let k = (of_char c :: nat) in
      if 48 \<le> k \<and> k \<le> 57 then Some (k - 48)
      else if 97 \<le> k \<and> k \<le> 102 then Some (k - 87)
      else if 65 \<le> k \<and> k \<le> 70 then Some (k - 55)
      else None)"

text \<open>
  \<^verbatim>\<open>new Buffer(str, 'hex')\<close>: the string is read two digits at a time and decoding stops
  at the first pair that is not two hex digits; a last single character is dropped.
\<close>

fun Buffer_hex :: "string \<Rightarrow> byte list" where
  "Buffer_hex (a # b # rest) =
     (case hexval a of
        None \<Rightarrow> []
      | Some x \<Rightarrow>
          (case hexval b of
             None \<Rightarrow> []
           | Some y \<Rightarrow> of_nat (16 * x + y) # Buffer_hex rest))"
| "Buffer_hex _ = []"

subsection \<open>Collaborators: byte reversal, little-endian integers, reader and writer\<close>

text \<open>
  Modelled from the spec: \<^verbatim>\<open>BufferUtil.reverse\<close> of lib/util/buffer.js, "a byte-array
  reversal utility".
\<close>

definition reverse :: "byte list \<Rightarrow> byte list" where
  "reverse b = rev b"

text \<open>
  Modelled from the spec: the collaborators work on byte arrays. Where the source hands
  a field to one of them (\<^verbatim>\<open>BufferUtil.reverse\<close>, \<^verbatim>\<open>bw.write\<close>), a field that holds no
  Buffer raises.
\<close>

definition the_Buffer :: "jsval \<Rightarrow> error + byte list" where
  "the_Buffer v = (case v of Buf b \<Rightarrow> Inr b | _ \<Rightarrow> Inl TypeError)"

text \<open>
  Modelled from the spec: "little-endian fixed-width" integers. \<open>le_bytes k n\<close> are the
  \<open>k\<close> little-endian bytes of \<open>n\<close>, \<open>le_nat\<close> is the number that little-endian bytes
  denote.
\<close>

fun le_bytes :: "nat \<Rightarrow> nat \<Rightarrow> byte list" where
  "le_bytes 0 n = []"
| "le_bytes (Suc k) n = of_nat (n mod 256) # le_bytes k (n div 256)"

fun le_nat :: "byte list \<Rightarrow> nat" where
  "le_nat [] = 0"
| "le_nat (b # bs) = unat b + 256 * le_nat bs"

text \<open>
  Modelled from the spec: the \<^verbatim>\<open>BufferWriter\<close> of lib/encoding/bufferwriter.js, "a
  positioned byte writer supporting little-endian fixed-width integer writes and varint
  writes". The writer is the bytes written so far.
\<close>

type_synonym BufferWriter = "byte list"

text \<open>Modelled from the spec: \<^verbatim>\<open>bw.write(buf)\<close> appends the bytes of a Buffer.\<close>

definition bw_write :: "BufferWriter \<Rightarrow> jsval \<Rightarrow> error + BufferWriter" where
  "bw_write bw v = bindE (the_Buffer v) (\<lambda>b. Inr (bw @ b))"

text \<open>
  Modelled from the spec: \<^verbatim>\<open>bw.writeUInt32LE(n)\<close> appends the four little-endian bytes
  of a number below \<open>2 ^ 32\<close>; a number that does not fit, and a value that is no
  number, raise.
\<close>

definition writeUInt32LE :: "BufferWriter \<Rightarrow> jsval \<Rightarrow> error + BufferWriter" where
  "writeUInt32LE bw v =
     (case v of
        Num n \<Rightarrow> if n < 2 ^ 32 then Inr (bw @ le_bytes 4 n) else Inl RangeError
      | _ \<Rightarrow> Inl TypeError)"

text \<open>
  Modelled from the spec: \<^verbatim>\<open>bw.writeVarintNum(n)\<close>, the "variable-length encoding of an
  unsigned integer" of the Bitcoin wire format: one byte below 253; the marker 253 and
  two bytes below \<open>2 ^ 16\<close>; the marker 254 and four bytes below \<open>2 ^ 32\<close>; the marker
  255 and eight bytes below \<open>2 ^ 64\<close>.
\<close>

definition writeVarintNum :: "BufferWriter \<Rightarrow> nat \<Rightarrow> error + BufferWriter" where
  "writeVarintNum bw n =
     (if n < 253 then Inr (bw @ le_bytes 1 n)
      else if n < 0x10000 then Inr (bw @ 253 # le_bytes 2 n)
      else if n < 0x100000000 then Inr (bw @ 254 # le_bytes 4 n)
      else if n < 2 ^ 64 then Inr (bw @ 255 # le_bytes 8 n)
      else Inl RangeError)"

text \<open>
  Modelled from the spec: the \<^verbatim>\<open>BufferReader\<close> of lib/encoding/bufferreader.js, "a
  positioned byte reader supporting little-endian fixed-width integer reads and varint
  reads": the buffer and the position of the next read.
\<close>

record BufferReader =
  buf :: "byte list"
  pos :: nat

text \<open>Modelled from the spec: \<^verbatim>\<open>BufferReader(buf)\<close>, a reader at the start of the buffer.\<close>

definition BufferReader_of :: "byte list \<Rightarrow> BufferReader" where
  "BufferReader_of b = \<lparr>buf = b, pos = 0\<rparr>"

text \<open>
  Modelled from the spec: \<^verbatim>\<open>br.read(len)\<close> returns the next \<open>len\<close> bytes and advances;
  when "insufficient bytes remain in the buffer for the current field" it raises the
  decode error.
\<close>

definition read :: "BufferReader \<Rightarrow> nat \<Rightarrow> error + (byte list \<times> BufferReader)" where
  "read br len =
     (if pos br + len \<le> length (buf br)
      then Inr (take len (drop (pos br) (buf br)), br\<lparr>pos := pos br + len\<rparr>)
      else Inl DecodeError)"

text \<open>
  Modelled from the spec: the fixed-width reads \<^verbatim>\<open>readUInt8\<close>, \<^verbatim>\<open>readUInt16LE\<close>,
  \<^verbatim>\<open>readUInt32LE\<close> and the 64-bit read, each a read of \<open>k\<close> little-endian bytes.
\<close>

definition readUIntLE :: "nat \<Rightarrow> BufferReader \<Rightarrow> error + (nat \<times> BufferReader)" where
  "readUIntLE k br = bindE (read br k) (\<lambda>(b, br'). Inr (le_nat b, br'))"

definition readUInt8 :: "BufferReader \<Rightarrow> error + (nat \<times> BufferReader)" where
  "readUInt8 = readUIntLE 1"

definition readUInt16LE :: "BufferReader \<Rightarrow> error + (nat \<times> BufferReader)" where
  "readUInt16LE = readUIntLE 2"

definition readUInt32LE :: "BufferReader \<Rightarrow> error + (nat \<times> BufferReader)" where
  "readUInt32LE = readUIntLE 4"

definition readUInt64LE :: "BufferReader \<Rightarrow> error + (nat \<times> BufferReader)" where
  "readUInt64LE = readUIntLE 8"

text \<open>
  Modelled from the spec: \<^verbatim>\<open>br.readVarintNum()\<close>, the inverse of the varint write: the
  first byte is the number, or the marker of a two-, four- or eight-byte number.
\<close>

definition readVarintNum :: "BufferReader \<Rightarrow> error + (nat \<times> BufferReader)" where
  "readVarintNum br =
     bindE (readUInt8 br) (\<lambda>(first, br1).
       if first = 0xFD then readUInt16LE br1
       else if first = 0xFE then readUInt32LE br1
       else if first = 0xFF then readUInt64LE br1
       else Inr (first, br1))"

text \<open>
  Modelled from the spec: \<^verbatim>\<open>br.readReverse()\<close> without a length, all the bytes from the
  position on, reversed.
\<close>

definition readReverse :: "BufferReader \<Rightarrow> byte list" where
  "readReverse br = reverse (drop (pos br) (buf br))"

subsection \<open>Decoding and encoding the wire layouts\<close>

text \<open>
  \<^verbatim>\<open>BlockHeader._fromBufferReader(br)\<close> (a leading underscore of the source is written
  \<open>u_\<close>). The object it builds has only the keys that the branch taken assigns; the
  others read as \<open>undefined\<close>. The reader is returned with the object, since the reads
  advance it.
\<close>

definition u_fromBufferReader :: "BufferReader \<Rightarrow> error + (info \<times> BufferReader)" where
  "u_fromBufferReader br =
     bindE (readUInt32LE br) (\<lambda>(ver, br1).
     bindE (read br1 32) (\<lambda>(prev, br2).
     bindE (read br2 32) (\<lambda>(merkle, br3).
     bindE (readUInt32LE br3) (\<lambda>(timeOrHeight, br4).
       if isBitcoinQuark (Some timeOrHeight) then
         bindE (read br4 28) (\<lambda>(res, br5).
         bindE (readUInt32LE br5) (\<lambda>(tm, br6).
         bindE (readUInt32LE br6) (\<lambda>(bts, br7).
         bindE (read br7 32) (\<lambda>(non, br8).
         bindE (readVarintNum br8) (\<lambda>(lenSolution, br9).
         bindE (read br9 lenSolution) (\<lambda>(sol, br10).
           Inr (\<lparr>version = ver, prevHash = Buf prev, merkleRoot = Buf merkle,
                  height = Some timeOrHeight, reserved = Buf res, time = tm,
                  timestamp = None, bits = bts, nonce = Buf non, solution = Buf sol,
                  hash = None\<rparr>, br10)))))))
       else
         bindE (readUInt32LE br4) (\<lambda>(bts, br5).
         bindE (readUInt32LE br5) (\<lambda>(non, br6).
           Inr (\<lparr>version = ver, prevHash = Buf prev, merkleRoot = Buf merkle,
                  height = None, reserved = Undefined, time = timeOrHeight,
                  timestamp = None, bits = bts, nonce = Num non, solution = Undefined,
                  hash = None\<rparr>, br6)))))))"

text \<open>\<^verbatim>\<open>this.solution.length\<close>: a Buffer and a string have a length.\<close>

definition js_length :: "jsval \<Rightarrow> error + nat" where
  "js_length v =
     (case v of Buf b \<Rightarrow> Inr (length b) | Str s \<Rightarrow> Inr (length s) | _ \<Rightarrow> Inl TypeError)"

text \<open>\<^verbatim>\<open>BlockHeader.prototype.toBufferWriter(bw)\<close>; without \<open>bw\<close> a new writer is made.\<close>

definition toBufferWriter ::
  "'a fields_scheme \<Rightarrow> BufferWriter option \<Rightarrow> error + BufferWriter" where
  "toBufferWriter this bw_arg =
     (let bw = (case bw_arg of None \<Rightarrow> [] | Some w \<Rightarrow> w) in
      bindE (writeUInt32LE bw (Num (version this))) (\<lambda>bw1.
      bindE (bw_write bw1 (prevHash this)) (\<lambda>bw2.
      bindE (bw_write bw2 (merkleRoot this)) (\<lambda>bw3.
        if isBitcoinQuark (height this) then
          bindE (writeUInt32LE bw3 (case height this of Some n \<Rightarrow> Num n | None \<Rightarrow> Undefined))
            (\<lambda>bw4.
          bindE (bw_write bw4 (reserved this)) (\<lambda>bw5.
          bindE (writeUInt32LE bw5 (Num (time this))) (\<lambda>bw6.
          bindE (writeUInt32LE bw6 (Num (bits this))) (\<lambda>bw7.
          bindE (bw_write bw7 (nonce this)) (\<lambda>bw8.
          bindE (js_length (solution this)) (\<lambda>len.
          bindE (writeVarintNum bw8 len) (\<lambda>bw9.
            bw_write bw9 (solution this))))))))
        else
          bindE (writeUInt32LE bw3 (Num (time this))) (\<lambda>bw4.
          bindE (writeUInt32LE bw4 (Num (bits this))) (\<lambda>bw5.
            writeUInt32LE bw5 (nonce this)))))))"

text \<open>\<^verbatim>\<open>toBuffer()\<close>: the concatenation of what a new writer has been given.\<close>

definition toBuffer :: "'a fields_scheme \<Rightarrow> error + byte list" where
  "toBuffer this = toBufferWriter this None"

subsection \<open>Compact target and difficulty\<close>

text \<open>
  Modelled from the spec: a \<open>BN\<close> (lib/crypto/bn.js) is "an arbitrary-precision unsigned
  integer", here a \<open>nat\<close>; \<open>mul\<close> and \<open>div\<close> are multiplication and integer division.

  The loop \<^verbatim>\<open>while (mov-- > 0) { target = target.mul(new BN(2)); }\<close> of
  \<open>getTargetDifficulty\<close>: \<open>mov\<close> is a JavaScript number and may start negative.
\<close>

function mul2_while :: "int \<Rightarrow> nat \<Rightarrow> nat" where
  "mul2_while mov target = (if mov > 0 then mul2_while (mov - 1) (target * 2) else target)"
  by pat_completeness auto
termination
  by (relation "measure (\<lambda>(mov, target). nat mov)") auto

declare mul2_while.simps [simp del]

text \<open>
  \<^verbatim>\<open>getTargetDifficulty(bits)\<close>. \<^verbatim>\<open>bits = bits || this.bits\<close> takes the header's own
  field when the argument is left out and also when it is \<open>0\<close>. \<^verbatim>\<open>&\<close> and \<^verbatim>\<open>>>>\<close>
  work on the number's low 32 bits.
\<close>

definition getTargetDifficulty :: "'a fields_scheme \<Rightarrow> nat option \<Rightarrow> nat" where
  "getTargetDifficulty this bits_arg =
     (let bits1 = (case bits_arg of
                     None \<Rightarrow> bits this
                   | Some b \<Rightarrow> if b = 0 then bits this else b);
          w = (of_nat bits1 :: 32 word);
          target = unat (w AND 0xffffff);
          mov = 8 * (int (unat (drop_bit 24 w)) - 3)
      in mul2_while mov target)"

text \<open>
  Modelled from the spec: \<^verbatim>\<open>bn.toString(10)\<close>, the "decimal-string rendering": the
  decimal digits, without a leading zero.
\<close>

definition digit10 :: "nat \<Rightarrow> char" where
  "digit10 d = ''0123456789'' ! d"

function toString10 :: "nat \<Rightarrow> string" where
  "toString10 n = (if n < 10 then [digit10 n] else toString10 (n div 10) @ [digit10 (n mod 10)])"
  by pat_completeness auto
termination
  by (relation "measure (\<lambda>n. n)") auto

declare toString10.simps [simp del]

text \<open>
  \<^verbatim>\<open>currentTargetBN == 0\<close> compares an object with a number: the object is turned into
  its string by \<open>toString\<close> and the string of decimal digits into a number, which is
  zero when every digit is \<open>0\<close>.
\<close>

definition loose_eq_0 :: "nat \<Rightarrow> bool" where
  "loose_eq_0 bn = list_all (\<lambda>c. c = CHR ''0'') (toString10 bn)"

text \<open>
  \<^verbatim>\<open>str.slice(start, end)\<close>: a negative index counts from the end of the string, and
  both are clamped to the string.
\<close>

definition slice_str :: "string \<Rightarrow> int \<Rightarrow> int option \<Rightarrow> string" where
  "slice_str str start end_arg =
     (let len = int (length str);
          k = (if start < 0 then max (len + start) 0 else min start len);
          e = (case end_arg of None \<Rightarrow> len | Some x \<Rightarrow> x);
          final = (if e < 0 then max (len + e) 0 else min e len)
      in take (nat (max (final - k) 0)) (drop (nat k) str))"

text \<open>
  What \<open>getDifficulty\<close> returns: the literal \<open>1\<close>, or \<open>parseFloat\<close> of a string. The
  parse into a floating-point number is not modelled; the string handed to it is.
\<close>

datatype jsnumber = Literal nat | ParseFloat string

definition getDifficulty :: "'a fields_scheme \<Rightarrow> jsnumber" where
  "getDifficulty this =
     (let genesisBits = (if isBitcoinQuark (height this) then QUARK_GENESIS_BITS
                         else GENESIS_BITS);
          difficulty1TargetBN = getTargetDifficulty this (Some genesisBits) * 10 ^ 8;
          currentTargetBN = getTargetDifficulty this None
      in if loose_eq_0 currentTargetBN then Literal 1
         else
           (let difficultyString = toString10 (difficulty1TargetBN div currentTargetBN);
                decimalPos = int (length difficultyString) - 8
            in ParseFloat (slice_str difficultyString 0 (Some decimalPos) @ ''.'' @
                 slice_str difficultyString decimalPos None)))"

subsection \<open>The id\<close>

text \<open>
  \<^verbatim>\<open>Hash.sha256sha256\<close> of lib/crypto/hash.js, "a double application of a cryptographic
  hash function over a byte buffer", is a parameter of the functions that use it: any
  function from the bytes to a 256-bit digest. \<open>digest_bytes\<close> is the Buffer of the 32
  bytes of a digest.
\<close>

type_synonym sha = "byte list \<Rightarrow> 256 word"

definition digest_bytes :: "256 word \<Rightarrow> byte list" where
  "digest_bytes d = rev (le_bytes 32 (unat d))"

text \<open>\<^verbatim>\<open>BlockHeader.prototype._getHash\<close>.\<close>

definition u_getHash :: "sha \<Rightarrow> 'a fields_scheme \<Rightarrow> error + byte list" where
  "u_getHash sha256sha256 this =
     bindE (toBuffer this) (\<lambda>b. Inr (digest_bytes (sha256sha256 b)))"

text \<open>
  The getter of \<open>idProperty\<close>, installed for both \<open>id\<close> and \<open>hash\<close>. \<^verbatim>\<open>!this._id\<close> holds
  when the slot is \<open>undefined\<close> or the empty string. The getter returns the value and
  the instance, whose slot it may have filled.
\<close>

definition get_id :: "sha \<Rightarrow> BlockHeader \<Rightarrow> error + (string \<times> BlockHeader)" where
  "get_id sha256sha256 this =
     (let fill = bindE (u_getHash sha256sha256 this) (\<lambda>h.
            let v = toString_hex (readReverse (BufferReader_of h))
            in Inr (v, this\<lparr>id_cache := Some v\<rparr>))
      in (case id_cache this of
            None \<Rightarrow> fill
          | Some s \<Rightarrow> if s = [] then fill else Inr (s, this)))"

text \<open>The setter of \<open>idProperty\<close> is \<^verbatim>\<open>_.noop\<close>: it takes the value and does nothing.\<close>

definition set_id :: "jsval \<Rightarrow> BlockHeader \<Rightarrow> BlockHeader" where
  "set_id v this = this"

subsection \<open>Proof of work\<close>

text \<open>
  Modelled from the spec: \<^verbatim>\<open>new BN(str, 'hex')\<close>, "construction from hex": the number
  that a string of hex digits denotes, most significant digit first. An id holds hex
  digits only; another character counts as the digit 0.
\<close>

definition BN_hex :: "string \<Rightarrow> nat" where
  "BN_hex str = foldl (\<lambda>acc c. 16 * acc + (case hexval c of None \<Rightarrow> 0 | Some d \<Rightarrow> d)) 0 str"

text \<open>
  Modelled from the spec: \<^verbatim>\<open>a.cmp(b)\<close>, the "comparison": \<open>-1\<close>, \<open>0\<close> or \<open>1\<close>.
\<close>

definition cmp :: "nat \<Rightarrow> nat \<Rightarrow> int" where
  "cmp a b = (if a < b then - 1 else if a = b then 0 else 1)"

definition validProofOfWork :: "sha \<Rightarrow> BlockHeader \<Rightarrow> error + (bool \<times> BlockHeader)" where
  "validProofOfWork sha256sha256 this =
     bindE (get_id sha256sha256 this) (\<lambda>(i, this1).
       let pow = BN_hex i;
           target = getTargetDifficulty this1 None
       in if cmp pow target > 0 then Inr (False, this1) else Inr (True, this1))"

subsection \<open>Plain objects\<close>

text \<open>
  \<^verbatim>\<open>BlockHeader._fromObject(data)\<close>. \<open>None\<close> is a call without an object, which
  \<^verbatim>\<open>$.checkArgument\<close> refuses. The local \<open>nonce\<close> is computed and the object returned
  is given \<^verbatim>\<open>data.nonce\<close>.
\<close>

definition u_fromObject :: "info option \<Rightarrow> error + info" where
  "u_fromObject data_arg =
     (case data_arg of
        None \<Rightarrow> Inl ArgumentError
      | Some data \<Rightarrow>
          (let prevHash0 = prevHash data;
               merkleRoot0 = merkleRoot data;
               height0 = height data;
               isBQ = isBitcoinQuark height0;
               reserved0 = reserved data;
               nonce0 = nonce data;
               solution0 = solution data;
               prevHash1 = (case prevHash data of
                              Str s \<Rightarrow> Buf (reverse (Buffer_hex s)) | _ \<Rightarrow> prevHash0);
               merkleRoot1 = (case merkleRoot data of
                                Str s \<Rightarrow> Buf (reverse (Buffer_hex s)) | _ \<Rightarrow> merkleRoot0);
               reserved1 = (if isBQ then
                              (case reserved data of
                                 Str s \<Rightarrow> Buf (reverse (Buffer_hex s)) | _ \<Rightarrow> reserved0)
                            else reserved0);
               nonce1 = (if isBQ then
                           (case nonce data of
                              Str s \<Rightarrow> Buf (reverse (Buffer_hex s)) | _ \<Rightarrow> nonce0)
                         else nonce0);
               solution1 = (if isBQ then
                              (case solution data of
                                 Str s \<Rightarrow> Buf (Buffer_hex s) | _ \<Rightarrow> solution0)
                            else solution0)
           in Inr \<lparr>version = version data, prevHash = prevHash1, merkleRoot = merkleRoot1,
                    height = height0, reserved = reserved1, time = time data,
                    timestamp = Some (time data), bits = bits data, nonce = nonce data,
                    solution = solution1, hash = hash data\<rparr>))"

text \<open>What the constructor is given: a Buffer, an object, or something else.\<close>

datatype ctor_arg = ArgBuffer "byte list" | ArgObject info | ArgOther

text \<open>\<^verbatim>\<open>BlockHeader._from(arg)\<close>.\<close>

definition u_from :: "ctor_arg \<Rightarrow> error + info" where
  "u_from arg =
     (case arg of
        ArgBuffer b \<Rightarrow> bindE (u_fromBufferReader (BufferReader_of b)) (\<lambda>(i, br). Inr i)
      | ArgObject obj \<Rightarrow> u_fromObject (Some obj)
      | ArgOther \<Rightarrow> Inl TypeError)"

text \<open>
  \<^verbatim>\<open>new BlockHeader(arg)\<close>. A hash that the argument carries (\<^verbatim>\<open>if (info.hash)\<close>: a
  string that is not empty) is checked against the getter's value.
\<close>

definition new_BlockHeader :: "sha \<Rightarrow> ctor_arg \<Rightarrow> error + BlockHeader" where
  "new_BlockHeader sha256sha256 arg =
     bindE (u_from arg) (\<lambda>i.
       let this = \<lparr>version = version i, prevHash = prevHash i, merkleRoot = merkleRoot i,
                   height = height i, reserved = reserved i, time = time i,
                   timestamp = Some (time i), bits = bits i, nonce = nonce i,
                   solution = solution i, id_cache = None\<rparr>
       in (case hash i of
             None \<Rightarrow> Inr this
           | Some hs \<Rightarrow>
               if hs = [] then Inr this
               else bindE (get_id sha256sha256 this) (\<lambda>(v, this1).
                      if v = hs then Inr this1 else Inl StateError)))"

text \<open>\<^verbatim>\<open>BlockHeader.fromObject(obj)\<close>: the constructor runs \<open>_fromObject\<close> once more.\<close>

definition fromObject :: "sha \<Rightarrow> info option \<Rightarrow> error + BlockHeader" where
  "fromObject sha256sha256 obj =
     bindE (u_fromObject obj) (\<lambda>i. new_BlockHeader sha256sha256 (ArgObject i))"

text \<open>\<^verbatim>\<open>BlockHeader.fromBuffer(buf)\<close>.\<close>

definition fromBuffer :: "sha \<Rightarrow> byte list \<Rightarrow> error + BlockHeader" where
  "fromBuffer sha256sha256 b =
     bindE (u_fromBufferReader (BufferReader_of b)) (\<lambda>(i, br).
       new_BlockHeader sha256sha256 (ArgObject i))"

text \<open>
  \<^verbatim>\<open>x.toString('hex')\<close> for the solution field: a Buffer gives its hex digits, a string
  itself, a number refuses the radix, \<open>undefined\<close> has no method.
\<close>

definition toString_hex_of :: "jsval \<Rightarrow> error + string" where
  "toString_hex_of v =
     (case v of
        Buf b \<Rightarrow> Inr (toString_hex b)
      | Str s \<Rightarrow> Inr s
      | Num n \<Rightarrow> Inl RangeError
      | Undefined \<Rightarrow> Inl TypeError)"

text \<open>
  \<^verbatim>\<open>BlockHeader.prototype.toObject\<close>. Reading \<^verbatim>\<open>this.hash\<close> runs the getter, so the
  instance is returned too.
\<close>

definition toObject :: "sha \<Rightarrow> BlockHeader \<Rightarrow> error + (info \<times> BlockHeader)" where
  "toObject sha256sha256 this =
     (if isBitcoinQuark (height this) then
        bindE (get_id sha256sha256 this) (\<lambda>(h, this1).
        bindE (the_Buffer (prevHash this1)) (\<lambda>p.
        bindE (the_Buffer (merkleRoot this1)) (\<lambda>m.
        bindE (the_Buffer (reserved this1)) (\<lambda>r.
        bindE (the_Buffer (nonce this1)) (\<lambda>n.
        bindE (toString_hex_of (solution this1)) (\<lambda>s.
          Inr (\<lparr>version = version this1, prevHash = Str (toString_hex (reverse p)),
                 merkleRoot = Str (toString_hex (reverse m)), height = height this1,
                 reserved = Str (toString_hex (reverse r)), time = time this1,
                 timestamp = None, bits = bits this1,
                 nonce = Str (toString_hex (reverse n)), solution = Str s,
                 hash = Some h\<rparr>, this1)))))))
      else
        bindE (get_id sha256sha256 this) (\<lambda>(h, this1).
        bindE (the_Buffer (prevHash this1)) (\<lambda>p.
        bindE (the_Buffer (merkleRoot this1)) (\<lambda>m.
          Inr (\<lparr>version = version this1, prevHash = Str (toString_hex (reverse p)),
                 merkleRoot = Str (toString_hex (reverse m)), height = None,
                 reserved = Undefined, time = time this1, timestamp = None,
                 bits = bits this1, nonce = nonce this1, solution = Undefined,
                 hash = Some h\<rparr>, this1)))))"

subsection \<open>Records of the two layouts\<close>

text \<open>
  The records the spec calls valid. Legacy: version, 32-byte prevHash, 32-byte
  merkleRoot, u32 time, u32 bits, u32 nonce, and no height, reserved or solution.
  Extended: a u32 height, 28 reserved bytes, a 32-byte nonce and the solution bytes
  besides; a Buffer is shorter than \<open>2 ^ 32\<close> bytes.
\<close>

definition is_buf_len :: "nat \<Rightarrow> jsval \<Rightarrow> bool" where
  "is_buf_len n v = (case v of Buf b \<Rightarrow> length b = n | _ \<Rightarrow> False)"

definition valid_legacy :: "'a fields_scheme \<Rightarrow> bool" where
  "valid_legacy h =
     (version h < 2 ^ 32 \<and> is_buf_len 32 (prevHash h) \<and> is_buf_len 32 (merkleRoot h) \<and>
      height h = None \<and> reserved h = Undefined \<and> time h < 2 ^ 32 \<and> bits h < 2 ^ 32 \<and>
      (case nonce h of Num n \<Rightarrow> n < 2 ^ 32 | _ \<Rightarrow> False) \<and> solution h = Undefined)"

definition valid_extended :: "'a fields_scheme \<Rightarrow> bool" where
  "valid_extended h =
     (version h < 2 ^ 32 \<and> is_buf_len 32 (prevHash h) \<and> is_buf_len 32 (merkleRoot h) \<and>
      (case height h of Some n \<Rightarrow> n < 2 ^ 32 | None \<Rightarrow> False) \<and>
      is_buf_len 28 (reserved h) \<and> time h < 2 ^ 32 \<and> bits h < 2 ^ 32 \<and>
      is_buf_len 32 (nonce h) \<and>
      (case solution h of Buf s \<Rightarrow> length s < 2 ^ 32 | _ \<Rightarrow> False))"

subsection \<open>Example headers\<close>

text \<open>
  A legacy header with the fields of a first block, the same header with a time of one
  second after the epoch, and an extended header of height 1 with the regtest bits
  \<open>0x207fffff\<close> that the source's comment lists.
\<close>

definition legacy_example :: BlockHeader where
  "legacy_example =
     \<lparr>version = 1, prevHash = Buf (replicate 32 0), merkleRoot = Buf (replicate 32 7),
      height = None, reserved = Undefined, time = 1231006505,
      timestamp = Some 1231006505, bits = 0x1d00ffff, nonce = Num 2083236893,
      solution = Undefined, id_cache = None\<rparr>"

definition legacy_early :: BlockHeader where
  "legacy_early = legacy_example\<lparr>time := 1, timestamp := Some 1\<rparr>"

definition extended_example :: BlockHeader where
  "extended_example =
     \<lparr>version = 1, prevHash = Buf (replicate 32 0), merkleRoot = Buf (replicate 32 7),
      height = Some 1, reserved = Buf (replicate 28 0), time = 1231006505,
      timestamp = Some 1231006505, bits = 0x207fffff, nonce = Buf (1 # replicate 31 0),
      solution = Buf [0xab, 0xcd], id_cache = None\<rparr>"

section \<open>Lemmas\<close>

subsection \<open>Hex strings and little-endian bytes\<close>

lemma hexval_hexdigit_all: "list_all (\<lambda>n. hexval (hexdigit n) = Some n) [0..<16]"
  by code_simp

lemma hexval_hexdigit: "n < 16 \<Longrightarrow> hexval (hexdigit n) = Some n"
  using hexval_hexdigit_all by (simp add: list_all_iff)

lemma Buffer_hex_toString_hex: "Buffer_hex (toString_hex bs) = bs"
proof (induction bs)
  case Nil show ?case by simp
next
  case (Cons b bs)
  have d: "unat b div 16 < 16" using unsigned_less[of b, where ?'a = nat] by simp
  have m: "unat b mod 16 < 16" by simp
  show ?case using Cons by (simp add: hexval_hexdigit[OF d] hexval_hexdigit[OF m])
qed

lemma le_nat_le_bytes: "n < 256 ^ k \<Longrightarrow> le_nat (le_bytes k n) = n"
proof (induction k arbitrary: n)
  case 0 then show ?case by simp
next
  case (Suc k)
  then have "n div 256 < 256 ^ k" by (simp add: less_mult_imp_div_less mult.commute)
  then have "le_nat (le_bytes k (n div 256)) = n div 256" by (rule Suc.IH)
  then show ?case by (simp add: unat_of_nat)
qed

lemma length_le_bytes: "length (le_bytes k n) = k"
  by (induction k arbitrary: n) auto

subsection \<open>Reading what was written\<close>

text \<open>
  The reader is described by the bytes it has not yet read,
  \<open>drop (pos br) (buf br)\<close>: a read of the bytes \<open>x\<close> in front of them returns \<open>x\<close> and
  leaves the rest.
\<close>

lemma read_rem:
  assumes "drop (pos br) (buf br) = x @ rest" "pos br \<le> length (buf br)" "length x = k"
  shows "\<exists>br'. read br k = Inr (x, br') \<and> drop (pos br') (buf br') = rest \<and>
           pos br' \<le> length (buf br')"
proof -
  have len: "length (buf br) - pos br = k + length rest"
    using assms by (metis length_append length_drop)
  then have le: "pos br + k \<le> length (buf br)" using assms(2) by linarith
  have "drop (pos br + k) (buf br) = drop k (drop (pos br) (buf br))"
    by (simp add: add.commute)
  then have "drop (pos br + k) (buf br) = rest" using assms by simp
  moreover have "take k (drop (pos br) (buf br)) = x" using assms by simp
  ultimately show ?thesis using le by (simp add: read_def)
qed

lemma readUIntLE_rem:
  assumes "drop (pos br) (buf br) = le_bytes k n @ rest" "pos br \<le> length (buf br)"
    "n < 256 ^ k"
  shows "\<exists>br'. readUIntLE k br = Inr (n, br') \<and> drop (pos br') (buf br') = rest \<and>
           pos br' \<le> length (buf br')"
proof -
  obtain br' where "read br k = Inr (le_bytes k n, br')" "drop (pos br') (buf br') = rest"
    "pos br' \<le> length (buf br')"
    using read_rem[OF assms(1,2) length_le_bytes] by blast
  then show ?thesis using assms(3) by (simp add: readUIntLE_def bindE_def le_nat_le_bytes)
qed

lemma readUInt32LE_rem:
  assumes "drop (pos br) (buf br) = le_bytes 4 n @ rest" "pos br \<le> length (buf br)"
    "n < 2 ^ 32"
  shows "\<exists>br'. readUInt32LE br = Inr (n, br') \<and> drop (pos br') (buf br') = rest \<and>
           pos br' \<le> length (buf br')"
  unfolding readUInt32LE_def using readUIntLE_rem[OF assms(1,2)] assms(3) by simp

lemma readVarintNum_rem:
  assumes w: "writeVarintNum [] n = Inr vb"
    and d: "drop (pos br) (buf br) = vb @ rest" and p: "pos br \<le> length (buf br)"
  shows "\<exists>br'. readVarintNum br = Inr (n, br') \<and> drop (pos br') (buf br') = rest \<and>
           pos br' \<le> length (buf br')"
proof -
  consider (a) "n < 253" | (b) "253 \<le> n" "n < 0x10000" | (c) "0x10000 \<le> n" "n < 0x100000000"
    | (d) "0x100000000 \<le> n" "n < 2 ^ 64"
    using w by (fastforce simp: writeVarintNum_def split: if_splits)
  then show ?thesis
  proof cases
    case a
    then have vb: "vb = le_bytes 1 n" using w by (simp add: writeVarintNum_def)
    have "n < 256 ^ 1" using a by simp
    from readUIntLE_rem[OF d[unfolded vb] p this]
    show ?thesis using a by (auto simp: readVarintNum_def readUInt8_def bindE_def)
  next
    case b
    then have vb: "vb = le_bytes 1 253 @ le_bytes 2 n" using w
      by (simp add: writeVarintNum_def)
    have d1: "drop (pos br) (buf br) = le_bytes 1 253 @ (le_bytes 2 n @ rest)"
      using d vb by simp
    obtain br1 where r1: "readUIntLE 1 br = Inr (253, br1)"
      "drop (pos br1) (buf br1) = le_bytes 2 n @ rest" "pos br1 \<le> length (buf br1)"
      using readUIntLE_rem[OF d1 p] by auto
    have "n < 256 ^ 2" using b by simp
    from readUIntLE_rem[OF r1(2,3) this] r1(1)
    show ?thesis by (auto simp: readVarintNum_def readUInt8_def readUInt16LE_def bindE_def)
  next
    case c
    then have vb: "vb = le_bytes 1 254 @ le_bytes 4 n" using w
      by (simp add: writeVarintNum_def)
    have d1: "drop (pos br) (buf br) = le_bytes 1 254 @ (le_bytes 4 n @ rest)"
      using d vb by simp
    obtain br1 where r1: "readUIntLE 1 br = Inr (254, br1)"
      "drop (pos br1) (buf br1) = le_bytes 4 n @ rest" "pos br1 \<le> length (buf br1)"
      using readUIntLE_rem[OF d1 p] by auto
    have "n < 256 ^ 4" using c by simp
    from readUIntLE_rem[OF r1(2,3) this] r1(1)
    show ?thesis by (auto simp: readVarintNum_def readUInt8_def readUInt32LE_def bindE_def)
  next
    case d
    then have vb: "vb = le_bytes 1 255 @ le_bytes 8 n" using w
      by (simp add: writeVarintNum_def)
    have d1: "drop (pos br) (buf br) = le_bytes 1 255 @ (le_bytes 8 n @ rest)"
      using assms(2) vb by simp
    obtain br1 where r1: "readUIntLE 1 br = Inr (255, br1)"
      "drop (pos br1) (buf br1) = le_bytes 8 n @ rest" "pos br1 \<le> length (buf br1)"
      using readUIntLE_rem[OF d1 p] by auto
    have "n < 256 ^ 8" using d by simp
    from readUIntLE_rem[OF r1(2,3) this] r1(1)
    show ?thesis by (auto simp: readVarintNum_def readUInt8_def readUInt64LE_def bindE_def)
  qed
qed

lemma writeVarintNum_append:
  "writeVarintNum bw n = (case writeVarintNum [] n of Inl e \<Rightarrow> Inl e | Inr vb \<Rightarrow> Inr (bw @ vb))"
  by (simp add: writeVarintNum_def)

lemma writeVarintNum_ok: "n < 2 ^ 64 \<Longrightarrow> \<exists>vb. writeVarintNum [] n = Inr vb"
  by (simp add: writeVarintNum_def)

lemma toBuffer_extended:
  assumes "valid_extended h" "isBitcoinQuark (height h)"
  shows "\<exists>p m hg r n s vb.
     prevHash h = Buf p \<and> length p = 32 \<and> merkleRoot h = Buf m \<and> length m = 32 \<and>
     height h = Some hg \<and> hg < 2 ^ 32 \<and> reserved h = Buf r \<and> length r = 28 \<and>
     nonce h = Buf n \<and> length n = 32 \<and> solution h = Buf s \<and>
     writeVarintNum [] (length s) = Inr vb \<and>
     toBuffer h = Inr (le_bytes 4 (version h) @ p @ m @ le_bytes 4 hg @ r @
       le_bytes 4 (time h) @ le_bytes 4 (bits h) @ n @ vb @ s)"
proof -
  from assms(1) obtain p m hg r n s where f:
    "prevHash h = Buf p" "length p = 32" "merkleRoot h = Buf m" "length m = 32"
    "height h = Some hg" "hg < 2 ^ 32" "reserved h = Buf r" "length r = 28"
    "nonce h = Buf n" "length n = 32" "solution h = Buf s" "length s < 2 ^ 32"
    "version h < 2 ^ 32" "time h < 2 ^ 32" "bits h < 2 ^ 32"
    by (auto simp: valid_extended_def is_buf_len_def split: jsval.splits option.splits)
  have "length s < 2 ^ 64" using f(12) by simp
  then obtain vb where vb: "writeVarintNum [] (length s) = Inr vb"
    using writeVarintNum_ok by blast
  have "toBuffer h = Inr (le_bytes 4 (version h) @ p @ m @ le_bytes 4 hg @ r @
       le_bytes 4 (time h) @ le_bytes 4 (bits h) @ n @ vb @ s)"
    using f assms(2) vb
    by (simp add: toBuffer_def toBufferWriter_def bindE_def writeUInt32LE_def bw_write_def the_Buffer_def
        js_length_def writeVarintNum_append[of "_ @ _"] del: le_bytes.simps)
  with f vb show ?thesis by blast
qed

lemma toBuffer_legacy:
  assumes "valid_legacy h"
  shows "\<exists>p m n.
     prevHash h = Buf p \<and> length p = 32 \<and> merkleRoot h = Buf m \<and> length m = 32 \<and>
     nonce h = Num n \<and> n < 2 ^ 32 \<and>
     toBuffer h = Inr (le_bytes 4 (version h) @ p @ m @ le_bytes 4 (time h) @
       le_bytes 4 (bits h) @ le_bytes 4 n)"
proof -
  from assms(1) obtain p m n where f:
    "prevHash h = Buf p" "length p = 32" "merkleRoot h = Buf m" "length m = 32"
    "height h = None" "nonce h = Num n" "n < 2 ^ 32"
    "version h < 2 ^ 32" "time h < 2 ^ 32" "bits h < 2 ^ 32"
    by (auto simp: valid_legacy_def is_buf_len_def split: jsval.splits option.splits)
  have "toBuffer h = Inr (le_bytes 4 (version h) @ p @ m @ le_bytes 4 (time h) @
       le_bytes 4 (bits h) @ le_bytes 4 n)"
    using f
    by (simp add: toBuffer_def toBufferWriter_def bindE_def writeUInt32LE_def bw_write_def the_Buffer_def
        isBitcoinQuark_def del: le_bytes.simps)
  with f show ?thesis by blast
qed

lemma decode_extended:
  assumes l: "length p = 32" "length m = 32" "length r = 28" "length n = 32"
    and u: "v < 2 ^ 32" "hg < 2 ^ 32" "t < 2 ^ 32" "b < 2 ^ 32"
    and q: "isBitcoinQuark (Some hg)"
    and vb: "writeVarintNum [] (length s) = Inr vb"
  shows "\<exists>br'. u_fromBufferReader (BufferReader_of (le_bytes 4 v @ p @ m @ le_bytes 4 hg @ r @
       le_bytes 4 t @ le_bytes 4 b @ n @ vb @ s)) =
     Inr (\<lparr>version = v, prevHash = Buf p, merkleRoot = Buf m, height = Some hg,
           reserved = Buf r, time = t, timestamp = None, bits = b, nonce = Buf n,
           solution = Buf s, hash = None\<rparr>, br') \<and> drop (pos br') (buf br') = []"
proof -
  let ?B = "le_bytes 4 v @ p @ m @ le_bytes 4 hg @ r @
       le_bytes 4 t @ le_bytes 4 b @ n @ vb @ s"
  let ?br = "BufferReader_of ?B"
  have d0: "drop (pos ?br) (buf ?br) = ?B" and p0: "pos ?br \<le> length (buf ?br)"
    by (simp_all add: BufferReader_of_def)
  obtain br1 where r1: "readUInt32LE ?br = Inr (v, br1)"
    and d1: "drop (pos br1) (buf br1) = p @ m @ le_bytes 4 hg @ r @
       le_bytes 4 t @ le_bytes 4 b @ n @ vb @ s" and p1: "pos br1 \<le> length (buf br1)"
    using readUInt32LE_rem[OF d0 p0 u(1)] by blast
  obtain br2 where r2: "read br1 32 = Inr (p, br2)"
    and d2: "drop (pos br2) (buf br2) = m @ le_bytes 4 hg @ r @
       le_bytes 4 t @ le_bytes 4 b @ n @ vb @ s" and p2: "pos br2 \<le> length (buf br2)"
    using read_rem[OF d1 p1 l(1)] by blast
  obtain br3 where r3: "read br2 32 = Inr (m, br3)"
    and d3: "drop (pos br3) (buf br3) = le_bytes 4 hg @ r @
       le_bytes 4 t @ le_bytes 4 b @ n @ vb @ s" and p3: "pos br3 \<le> length (buf br3)"
    using read_rem[OF d2 p2 l(2)] by blast
  obtain br4 where r4: "readUInt32LE br3 = Inr (hg, br4)"
    and d4: "drop (pos br4) (buf br4) = r @
       le_bytes 4 t @ le_bytes 4 b @ n @ vb @ s" and p4: "pos br4 \<le> length (buf br4)"
    using readUInt32LE_rem[OF d3 p3 u(2)] by blast
  obtain br5 where r5: "read br4 28 = Inr (r, br5)"
    and d5: "drop (pos br5) (buf br5) = 
       le_bytes 4 t @ le_bytes 4 b @ n @ vb @ s" and p5: "pos br5 \<le> length (buf br5)"
    using read_rem[OF d4 p4 l(3)] by blast
  obtain br6 where r6: "readUInt32LE br5 = Inr (t, br6)"
    and d6: "drop (pos br6) (buf br6) = le_bytes 4 b @ n @ vb @ s"
    and p6: "pos br6 \<le> length (buf br6)"
    using readUInt32LE_rem[OF d5 p5 u(3)] by blast
  obtain br7 where r7: "readUInt32LE br6 = Inr (b, br7)"
    and d7: "drop (pos br7) (buf br7) = n @ vb @ s"
    and p7: "pos br7 \<le> length (buf br7)"
    using readUInt32LE_rem[OF d6 p6 u(4)] by blast
  obtain br8 where r8: "read br7 32 = Inr (n, br8)"
    and d8: "drop (pos br8) (buf br8) = vb @ s" and p8: "pos br8 \<le> length (buf br8)"
    using read_rem[OF d7 p7 l(4)] by blast
  obtain br9 where r9: "readVarintNum br8 = Inr (length s, br9)"
    and d9: "drop (pos br9) (buf br9) = s @ []" and p9: "pos br9 \<le> length (buf br9)"
    using readVarintNum_rem[OF vb _ p8, of s] d8 by auto
  obtain br10 where r10: "read br9 (length s) = Inr (s, br10)"
    and d10: "drop (pos br10) (buf br10) = []"
    using read_rem[OF d9 p9 refl] by blast
  show ?thesis
    unfolding u_fromBufferReader_def using d10
    by (simp add: bindE_def r1 r2 r3 r4 r5 r6 r7 r8 r9 r10 q del: le_bytes.simps)
qed

lemma decode_legacy:
  assumes l: "length p = 32" "length m = 32"
    and u: "v < 2 ^ 32" "t < 2 ^ 32" "b < 2 ^ 32" "n < 2 ^ 32"
    and q: "\<not> isBitcoinQuark (Some t)"
  shows "\<exists>br'. u_fromBufferReader (BufferReader_of (le_bytes 4 v @ p @ m @ le_bytes 4 t @
       le_bytes 4 b @ le_bytes 4 n)) =
     Inr (\<lparr>version = v, prevHash = Buf p, merkleRoot = Buf m, height = None,
           reserved = Undefined, time = t, timestamp = None, bits = b, nonce = Num n,
           solution = Undefined, hash = None\<rparr>, br') \<and> drop (pos br') (buf br') = []"
proof -
  let ?B = "le_bytes 4 v @ p @ m @ le_bytes 4 t @ le_bytes 4 b @ le_bytes 4 n"
  let ?br = "BufferReader_of ?B"
  have d0: "drop (pos ?br) (buf ?br) = ?B" and p0: "pos ?br \<le> length (buf ?br)"
    by (simp_all add: BufferReader_of_def)
  obtain br1 where r1: "readUInt32LE ?br = Inr (v, br1)"
    and d1: "drop (pos br1) (buf br1) = p @ m @ le_bytes 4 t @ le_bytes 4 b @ le_bytes 4 n"
    and p1: "pos br1 \<le> length (buf br1)"
    using readUInt32LE_rem[OF d0 p0 u(1)] by blast
  obtain br2 where r2: "read br1 32 = Inr (p, br2)"
    and d2: "drop (pos br2) (buf br2) = m @ le_bytes 4 t @ le_bytes 4 b @ le_bytes 4 n"
    and p2: "pos br2 \<le> length (buf br2)"
    using read_rem[OF d1 p1 l(1)] by blast
  obtain br3 where r3: "read br2 32 = Inr (m, br3)"
    and d3: "drop (pos br3) (buf br3) = le_bytes 4 t @ le_bytes 4 b @ le_bytes 4 n"
    and p3: "pos br3 \<le> length (buf br3)"
    using read_rem[OF d2 p2 l(2)] by blast
  obtain br4 where r4: "readUInt32LE br3 = Inr (t, br4)"
    and d4: "drop (pos br4) (buf br4) = le_bytes 4 b @ le_bytes 4 n"
    and p4: "pos br4 \<le> length (buf br4)"
    using readUInt32LE_rem[OF d3 p3 u(2)] by blast
  obtain br5 where r5: "readUInt32LE br4 = Inr (b, br5)"
    and d5: "drop (pos br5) (buf br5) = le_bytes 4 n @ []"
    and p5: "pos br5 \<le> length (buf br5)"
    using readUInt32LE_rem[OF d4 p4 u(3)] by auto
  obtain br6 where r6: "readUInt32LE br5 = Inr (n, br6)"
    and d6: "drop (pos br6) (buf br6) = []"
    using readUInt32LE_rem[OF d5 p5 u(4)] by blast
  show ?thesis
    unfolding u_fromBufferReader_def using d6
    by (simp add: bindE_def r1 r2 r3 r4 r5 r6 q del: le_bytes.simps)
qed

lemma read_short:
  assumes "length (drop (pos br) (buf br)) < k"
  shows "read br k = Inl DecodeError"
  using assms by (simp add: read_def)

lemma decode_legacy_early:
  assumes l: "length p = 32" "length m = 32"
    and u: "v < 2 ^ 32" "t < 2 ^ 32"
    and q: "isBitcoinQuark (Some t)"
  shows "u_fromBufferReader (BufferReader_of (le_bytes 4 v @ p @ m @ le_bytes 4 t @
       le_bytes 4 b @ le_bytes 4 n)) = Inl DecodeError"
proof -
  let ?B = "le_bytes 4 v @ p @ m @ le_bytes 4 t @ le_bytes 4 b @ le_bytes 4 n"
  let ?br = "BufferReader_of ?B"
  have d0: "drop (pos ?br) (buf ?br) = ?B" and p0: "pos ?br \<le> length (buf ?br)"
    by (simp_all add: BufferReader_of_def)
  obtain br1 where r1: "readUInt32LE ?br = Inr (v, br1)"
    and d1: "drop (pos br1) (buf br1) = p @ m @ le_bytes 4 t @ le_bytes 4 b @ le_bytes 4 n"
    and p1: "pos br1 \<le> length (buf br1)"
    using readUInt32LE_rem[OF d0 p0 u(1)] by blast
  obtain br2 where r2: "read br1 32 = Inr (p, br2)"
    and d2: "drop (pos br2) (buf br2) = m @ le_bytes 4 t @ le_bytes 4 b @ le_bytes 4 n"
    and p2: "pos br2 \<le> length (buf br2)"
    using read_rem[OF d1 p1 l(1)] by blast
  obtain br3 where r3: "read br2 32 = Inr (m, br3)"
    and d3: "drop (pos br3) (buf br3) = le_bytes 4 t @ le_bytes 4 b @ le_bytes 4 n"
    and p3: "pos br3 \<le> length (buf br3)"
    using read_rem[OF d2 p2 l(2)] by blast
  obtain br4 where r4: "readUInt32LE br3 = Inr (t, br4)"
    and d4: "drop (pos br4) (buf br4) = le_bytes 4 b @ le_bytes 4 n"
    and p4: "pos br4 \<le> length (buf br4)"
    using readUInt32LE_rem[OF d3 p3 u(2)] by blast
  have "length (drop (pos br4) (buf br4)) < 28"
    by (simp only: d4 length_append length_le_bytes)
  then have r5: "read br4 28 = Inl DecodeError" by (rule read_short)
  show ?thesis
    unfolding u_fromBufferReader_def
    by (simp add: bindE_def r1 r2 r3 r4 r5 q del: le_bytes.simps)
qed

lemma legacy_early_decode_fails:
  assumes v: "valid_legacy h" and q: "isBitcoinQuark (Some (time h))"
  shows "\<exists>b. toBuffer h = Inr b \<and> u_fromBufferReader (BufferReader_of b) = Inl DecodeError"
proof -
  from toBuffer_legacy[OF v] obtain p m n where f:
    "prevHash h = Buf p" "length p = 32" "merkleRoot h = Buf m" "length m = 32"
    "nonce h = Num n" "n < 2 ^ 32"
    and b: "toBuffer h = Inr (le_bytes 4 (version h) @ p @ m @ le_bytes 4 (time h) @
       le_bytes 4 (bits h) @ le_bytes 4 n)"
    by blast
  have u: "version h < 2 ^ 32" "time h < 2 ^ 32"
    using v by (simp_all add: valid_legacy_def)
  from decode_legacy_early[OF f(2) f(4) u q] b show ?thesis by simp
qed

lemma valid_extended_example:
  "valid_extended extended_example \<and> isBitcoinQuark (height extended_example)"
  by (simp add: valid_extended_def extended_example_def is_buf_len_def isBitcoinQuark_def
      LOCKTIME_THRESHOLD_def)

lemma valid_legacy_example:
  "valid_legacy legacy_example \<and> \<not> isBitcoinQuark (Some (time legacy_example))"
  by (simp add: valid_legacy_def legacy_example_def is_buf_len_def isBitcoinQuark_def
      LOCKTIME_THRESHOLD_def)

subsection \<open>The compact target in closed form\<close>

lemma mul2_while_eq: "mul2_while mov t = t * 2 ^ nat mov"
proof (induction mov t rule: mul2_while.induct)
  case (1 mov target)
  show ?case
  proof (cases "mov > 0")
    case True
    then have n: "nat mov = Suc (nat (mov - 1))" by simp
    have "mul2_while mov target = mul2_while (mov - 1) (target * 2)"
      using True by (subst mul2_while.simps) simp
    also have "\<dots> = target * 2 * 2 ^ nat (mov - 1)" using 1 True by simp
    finally show ?thesis by (simp add: n)
  next
    case False
    then show ?thesis by (subst mul2_while.simps) simp
  qed
qed


lemma unat_of_nat32: "b < 2 ^ 32 \<Longrightarrow> unat (of_nat b :: 32 word) = b"
  by (simp add: unat_of_nat)

lemma mask24: "(0xffffff :: 32 word) = mask 24"
  by (simp add: mask_eq_exp_minus_1)

lemma mantissa_eq:
  assumes "b < 2 ^ 32"
  shows "unat ((of_nat b :: 32 word) AND 0xffffff) = b mod 2 ^ 24"
proof -
  have "(of_nat b :: 32 word) AND 0xffffff = take_bit 24 (of_nat b :: 32 word)"
    by (simp only: mask24 take_bit_eq_mask)
  then have "unat ((of_nat b :: 32 word) AND 0xffffff) = take_bit 24 (unat (of_nat b :: 32 word))"
    by (simp only: unsigned_take_bit_eq)
  then show ?thesis using unat_of_nat32[OF assms] by (simp only: take_bit_eq_mod)
qed

lemma exponent_eq:
  assumes "b < 2 ^ 32"
  shows "unat (drop_bit 24 (of_nat b :: 32 word)) = b div 2 ^ 24"
proof -
  have "unat (drop_bit 24 (of_nat b :: 32 word)) = drop_bit 24 (unat (of_nat b :: 32 word))"
    by (rule unat_drop_bit_eq)
  also have "\<dots> = drop_bit 24 b" by (simp only: unat_of_nat32[OF assms])
  finally show ?thesis by (simp only: drop_bit_eq_div)
qed

lemma getTargetDifficulty_Some:
  assumes "b \<noteq> 0" "b < 2 ^ 32"
  shows "getTargetDifficulty h (Some b) = (b mod 2 ^ 24) * 2 ^ nat (8 * (int (b div 2 ^ 24) - 3))"
  using assms(1)
  by (simp only: getTargetDifficulty_def Let_def mul2_while_eq mantissa_eq[OF assms(2)]
      exponent_eq[OF assms(2)] option.case if_False)

lemma getTargetDifficulty_None:
  assumes "bits h < 2 ^ 32"
  shows "getTargetDifficulty h None =
    (bits h mod 2 ^ 24) * 2 ^ nat (8 * (int (bits h div 2 ^ 24) - 3))"
  by (simp only: getTargetDifficulty_def Let_def mul2_while_eq mantissa_eq[OF assms]
      exponent_eq[OF assms] option.case)

lemma getTargetDifficulty_Some_0: "getTargetDifficulty h (Some 0) = getTargetDifficulty h None"
  by (simp add: getTargetDifficulty_def)

subsection \<open>Decimal strings\<close>

lemma digit10_all: "list_all (\<lambda>d. (digit10 d = CHR ''0'') = (d = 0)) [0..<10]"
  by code_simp

lemma digit10_is_0: "d < 10 \<Longrightarrow> (digit10 d = CHR ''0'') = (d = 0)"
  using digit10_all by (simp add: list_all_iff)

lemma loose_eq_0_iff: "loose_eq_0 n = (n = 0)"
proof (induction n rule: toString10.induct)
  case (1 n)
  show ?case
  proof (cases "n < 10")
    case True
    then have "toString10 n = [digit10 n]" by (subst toString10.simps) simp
    then show ?thesis using True by (simp add: loose_eq_0_def digit10_is_0)
  next
    case False
    then have s: "toString10 n = toString10 (n div 10) @ [digit10 (n mod 10)]"
      by (subst toString10.simps) simp
    have "n div 10 \<noteq> 0" using False by simp
    with 1 False have "\<not> loose_eq_0 (n div 10)" by simp
    then show ?thesis using False by (simp add: loose_eq_0_def s)
  qed
qed

lemma toString10_390625: "toString10 390625 = ''390625''"
  by (simp add: toString10.simps digit10_def)

subsection \<open>Difficulty with eight digits or more\<close>

text \<open>
  When the quotient has at least eight digits both slices have indices inside the
  string, and the point stands eight digits from the end. A header whose bits are the
  legacy genesis bits gets \<open>1.00000000\<close>.
\<close>

lemma slice_str_point:
  assumes "8 \<le> length s"
  shows "slice_str s 0 (Some (int (length s) - 8)) @ ''.'' @
           slice_str s (int (length s) - 8) None =
         take (length s - 8) s @ ''.'' @ drop (length s - 8) s"
proof -
  have n: "nat (int (length s) - 8) = length s - 8" by simp
  have a: "slice_str s 0 (Some (int (length s) - 8)) = take (length s - 8) s"
    using assms by (simp add: slice_str_def Let_def min_def max_def n)
  have b: "slice_str s (int (length s) - 8) None = drop (length s - 8) s"
    using assms by (simp add: slice_str_def Let_def min_def max_def n)
  show ?thesis by (simp only: a b)
qed

lemma getDifficulty_zero_target:
  "getTargetDifficulty h None = 0 \<Longrightarrow> getDifficulty h = Literal 1"
  by (simp add: getDifficulty_def Let_def loose_eq_0_iff)

lemma getDifficulty_eight_digits:
  assumes "getTargetDifficulty h None \<noteq> 0"
    and "s = toString10
           (getTargetDifficulty h
              (Some (if isBitcoinQuark (height h) then 0x1f7fffff else 0x1d00ffff)) * 10 ^ 8
            div getTargetDifficulty h None)"
    and "8 \<le> length s"
  shows "getDifficulty h = ParseFloat (take (length s - 8) s @ ''.'' @ drop (length s - 8) s)"
proof -
  have "getDifficulty h =
      ParseFloat (slice_str s 0 (Some (int (length s) - 8)) @ ''.'' @
        slice_str s (int (length s) - 8) None)"
    using assms(1)
    by (simp add: getDifficulty_def Let_def loose_eq_0_iff assms(2) GENESIS_BITS_def
        QUARK_GENESIS_BITS_def)
  then show ?thesis by (simp only: slice_str_point[OF assms(3)])
qed

lemma getDifficulty_legacy_genesis: "getDifficulty legacy_example = ParseFloat ''1.00000000''"
proof -
  have b: "bits legacy_example = 0x1d00ffff" "height legacy_example = None"
    by (simp_all add: legacy_example_def)
  have c: "getTargetDifficulty legacy_example None = 0xffff * 2 ^ 208"
    using getTargetDifficulty_None[of legacy_example] by (simp add: b)
  have g: "getTargetDifficulty legacy_example (Some 0x1d00ffff) = 0xffff * 2 ^ 208"
    using getTargetDifficulty_Some[of "0x1d00ffff" legacy_example] by simp
  have s: "toString10 100000000 = ''100000000''"
    by (simp add: toString10.simps digit10_def)
  have q: "\<not> isBitcoinQuark (height legacy_example)" by (simp add: b isBitcoinQuark_def)
  have nz: "getTargetDifficulty legacy_example None \<noteq> 0" by (simp add: c)
  have e: "''100000000'' = toString10
           (getTargetDifficulty legacy_example
              (Some (if isBitcoinQuark (height legacy_example) then 0x1f7fffff else 0x1d00ffff))
              * 10 ^ 8
            div getTargetDifficulty legacy_example None)"
    by (simp only: q if_False g c) (simp add: s)
  have l: "8 \<le> length ''100000000''" by simp
  from getDifficulty_eight_digits[OF nz e l] show ?thesis by simp
qed

subsection \<open>The id getter\<close>

lemma length_digest_bytes: "length (digest_bytes d) = 32"
  by (simp add: digest_bytes_def length_le_bytes)

lemma toString_hex_Nil: "(toString_hex bs = []) = (bs = [])"
  by (cases bs) simp_all

lemma id_string_not_empty: "toString_hex (reverse (digest_bytes d)) \<noteq> []"
proof -
  have "length (reverse (digest_bytes d)) = 32"
    by (simp add: reverse_def length_digest_bytes)
  then have "reverse (digest_bytes d) \<noteq> []" by auto
  then show ?thesis by (simp add: toString_hex_Nil)
qed

lemma readReverse_all: "readReverse (BufferReader_of b) = reverse b"
  by (simp add: readReverse_def BufferReader_of_def)

lemma get_id_fresh:
  assumes "id_cache h = None \<or> id_cache h = Some []" "toBuffer h = Inr b"
  shows "get_id sha h =
    Inr (toString_hex (reverse (digest_bytes (sha b))),
         h\<lparr>id_cache := Some (toString_hex (reverse (digest_bytes (sha b))))\<rparr>)"
  using assms
  by (auto simp: get_id_def u_getHash_def bindE_def Let_def readReverse_all)

lemma get_id_cached:
  assumes "id_cache h = Some s" "s \<noteq> []"
  shows "get_id sha h = Inr (s, h)"
  using assms by (simp add: get_id_def)

lemma get_id_fields:
  assumes "get_id sha h = Inr (i, h1)"
  shows "h1 = h\<lparr>id_cache := Some i\<rparr> \<and> i \<noteq> []"
proof (cases "id_cache h = None \<or> id_cache h = Some []")
  case True
  then obtain b where b: "toBuffer h = Inr b"
    using assms
    by (cases "toBuffer h") (auto simp: get_id_def u_getHash_def bindE_def)
  from get_id_fresh[OF True b, of sha] assms show ?thesis
    by (auto simp: id_string_not_empty)
next
  case False
  then obtain s where s: "id_cache h = Some s" "s \<noteq> []" by auto
  from get_id_cached[OF s, of sha] assms s show ?thesis by auto
qed

lemma get_id_total:
  assumes "toBuffer h = Inr b"
  shows "\<exists>i. get_id sha h = Inr (i, h\<lparr>id_cache := Some i\<rparr>) \<and> i \<noteq> []"
proof (cases "id_cache h = None \<or> id_cache h = Some []")
  case True
  from get_id_fresh[OF True assms, of sha] show ?thesis
    by (simp add: id_string_not_empty)
next
  case False
  then obtain s where s: "id_cache h = Some s" "s \<noteq> []" by auto
  then have "h\<lparr>id_cache := Some s\<rparr> = h" by simp
  with get_id_cached[OF s, of sha] s show ?thesis by simp
qed

lemma rev_hex_roundtrip: "reverse (Buffer_hex (toString_hex (reverse b))) = b"
  by (simp add: Buffer_hex_toString_hex reverse_def)

lemma toBuffer_string_nonce:
  assumes "version h < 2 ^ 32" "prevHash h = Buf p" "merkleRoot h = Buf m"
    "height h = Some hg" "isBitcoinQuark (Some hg)" "hg < 2 ^ 32" "reserved h = Buf r"
    "time h < 2 ^ 32" "bits h < 2 ^ 32" "nonce h = Str x"
  shows "toBuffer h = Inl TypeError"
  using assms
  by (simp add: toBuffer_def toBufferWriter_def bindE_def writeUInt32LE_def bw_write_def
      the_Buffer_def del: le_bytes.simps)

lemma toString_hex_append: "toString_hex (a @ b) = toString_hex a @ toString_hex b"
  by (induction a) simp_all

lemma toString_hex_zeros: "toString_hex (replicate k 0) = replicate (2 * k) (CHR ''0'')"
  by (induction k) (simp_all add: hexdigit_def)

lemma le_bytes_zero: "le_bytes k 0 = replicate k 0"
  by (induction k) simp_all

lemma id_of_zero_digest: "toString_hex (reverse (digest_bytes 0)) = replicate 64 (CHR ''0'')"
  by (simp add: digest_bytes_def reverse_def le_bytes_zero toString_hex_zeros)

lemma BN_hex_zeros: "BN_hex (replicate k (CHR ''0'')) = 0"
proof -
  have "foldl (\<lambda>acc c. 16 * acc + (case hexval c of None \<Rightarrow> 0 | Some d \<Rightarrow> d)) 0
          (replicate k (CHR ''0'')) = 0"
    by (induction k) (simp_all add: hexval_def)
  then show ?thesis by (simp add: BN_hex_def)
qed

section \<open>Theorems\<close>

subsection \<open>Variant detector\<close>

text \<open>
  C1. For every 32-bit value \<open>c\<close> the detector answers legacy (false) when \<open>c\<close> is zero,
  legacy when \<open>c\<close> is strictly greater than \<open>LOCKTIME_THRESHOLD = 500000000\<close>, and
  extended (true) in every other case. The three cases are stated as one equation, which
  holds for every number, in particular below \<open>2 ^ 32\<close>.
\<close>

theorem isBitcoinQuark_three_way:
  "LOCKTIME_THRESHOLD = 500000000 \<and>
   isBitcoinQuark (Some c) =
     (if c = 0 then False else if 500000000 < c then False else True)"
  by (simp add: isBitcoinQuark_def LOCKTIME_THRESHOLD_def)

text \<open>
  C2, as the code has it. The detector answers legacy for \<open>0\<close> and for
  \<open>LOCKTIME_THRESHOLD + 1\<close>, and extended for \<open>LOCKTIME_THRESHOLD - 1\<close>, for every value
  strictly between \<open>0\<close> and \<open>LOCKTIME_THRESHOLD\<close>, and also for \<open>LOCKTIME_THRESHOLD\<close>
  itself: the test is \<^verbatim>\<open>arg > LOCKTIME_THRESHOLD\<close>.
\<close>

theorem isBitcoinQuark_boundary:
  "\<not> isBitcoinQuark (Some 0) \<and>
   isBitcoinQuark (Some LOCKTIME_THRESHOLD) \<and>
   \<not> isBitcoinQuark (Some (LOCKTIME_THRESHOLD + 1)) \<and>
   isBitcoinQuark (Some (LOCKTIME_THRESHOLD - 1)) \<and>
   (\<forall>c. 0 < c \<and> c < LOCKTIME_THRESHOLD \<longrightarrow> isBitcoinQuark (Some c))"
  by (simp add: isBitcoinQuark_def LOCKTIME_THRESHOLD_def)

theorem isBitcoinQuark_boundary_witness:
  "(0::nat) < 250000000 \<and> 250000000 < LOCKTIME_THRESHOLD \<and>
   isBitcoinQuark (Some 250000000)"
proof -
  have r: "(0::nat) < 250000000 \<and> 250000000 < LOCKTIME_THRESHOLD"
    by (simp add: LOCKTIME_THRESHOLD_def)
  from isBitcoinQuark_boundary have
    "\<forall>c. 0 < c \<and> c < LOCKTIME_THRESHOLD \<longrightarrow> isBitcoinQuark (Some c)"
    by (elim conjE)
  with r show ?thesis by blast
qed

text \<open>
  The claim as the spec states it says legacy for the input \<open>LOCKTIME_THRESHOLD\<close>; the
  detector says extended there.
\<close>

theorem isBitcoinQuark_at_threshold_counterexample:
  "LOCKTIME_THRESHOLD = 500000000 \<and> isBitcoinQuark (Some 500000000) = True"
  by (simp add: isBitcoinQuark_def LOCKTIME_THRESHOLD_def)

subsection \<open>Wire round trip\<close>

text \<open>
  C3, as the code has it. The encoder chooses the layout by the detector on the
  record's height and the decoder by the detector on the number in the shared slot,
  which for a legacy record is its time. For every extended record that the encoder
  takes for one (height between 1 and \<open>LOCKTIME_THRESHOLD\<close>, 32-byte prevHash and
  merkleRoot, 28 reserved bytes, 32-byte nonce, solution bytes) and every legacy record
  whose time the detector does not take for a height (time \<open>0\<close> or above
  \<open>LOCKTIME_THRESHOLD\<close>), \<open>toBuffer\<close> succeeds and \<open>_fromBufferReader\<close> on its bytes
  reads all of them and returns version, prevHash, merkleRoot, height, reserved, time,
  bits, nonce and solution as they were.
\<close>

theorem encode_decode_roundtrip:
  assumes "valid_extended h \<and> isBitcoinQuark (height h) \<or>
           valid_legacy h \<and> \<not> isBitcoinQuark (Some (time h))"
  shows "\<exists>b d br'. toBuffer h = Inr b \<and>
           u_fromBufferReader (BufferReader_of b) = Inr (d, br') \<and>
           drop (pos br') (buf br') = [] \<and>
           version d = version h \<and> prevHash d = prevHash h \<and>
           merkleRoot d = merkleRoot h \<and> height d = height h \<and>
           reserved d = reserved h \<and> time d = time h \<and> bits d = bits h \<and>
           nonce d = nonce h \<and> solution d = solution h"
  using assms
proof (elim disjE conjE)
  assume v: "valid_extended h" and q: "isBitcoinQuark (height h)"
  from toBuffer_extended[OF v q] obtain p m hg r n s vb where f:
    "prevHash h = Buf p" "length p = 32" "merkleRoot h = Buf m" "length m = 32"
    "height h = Some hg" "hg < 2 ^ 32" "reserved h = Buf r" "length r = 28"
    "nonce h = Buf n" "length n = 32" "solution h = Buf s"
    "writeVarintNum [] (length s) = Inr vb"
    and b: "toBuffer h = Inr (le_bytes 4 (version h) @ p @ m @ le_bytes 4 hg @ r @
       le_bytes 4 (time h) @ le_bytes 4 (bits h) @ n @ vb @ s)"
    by blast
  have u: "version h < 2 ^ 32" "time h < 2 ^ 32" "bits h < 2 ^ 32"
    using v by (simp_all add: valid_extended_def)
  have q': "isBitcoinQuark (Some hg)" using q f(5) by simp
  from decode_extended[OF f(2) f(4) f(8) f(10) u(1) f(6) u(2) u(3) q' f(12)]
  obtain br' where
    "u_fromBufferReader (BufferReader_of (le_bytes 4 (version h) @ p @ m @ le_bytes 4 hg @ r @
       le_bytes 4 (time h) @ le_bytes 4 (bits h) @ n @ vb @ s)) =
     Inr (\<lparr>version = version h, prevHash = Buf p, merkleRoot = Buf m, height = Some hg,
           reserved = Buf r, time = time h, timestamp = None, bits = bits h, nonce = Buf n,
           solution = Buf s, hash = None\<rparr>, br')" "drop (pos br') (buf br') = []"
    by blast
  with b f show ?thesis by simp
next
  assume v: "valid_legacy h" and q: "\<not> isBitcoinQuark (Some (time h))"
  from toBuffer_legacy[OF v] obtain p m n where f:
    "prevHash h = Buf p" "length p = 32" "merkleRoot h = Buf m" "length m = 32"
    "nonce h = Num n" "n < 2 ^ 32"
    and b: "toBuffer h = Inr (le_bytes 4 (version h) @ p @ m @ le_bytes 4 (time h) @
       le_bytes 4 (bits h) @ le_bytes 4 n)"
    by blast
  have u: "version h < 2 ^ 32" "time h < 2 ^ 32" "bits h < 2 ^ 32"
    "height h = None" "reserved h = Undefined" "solution h = Undefined"
    using v by (simp_all add: valid_legacy_def)
  from decode_legacy[OF f(2) f(4) u(1) u(2) u(3) f(6) q]
  obtain br' where
    "u_fromBufferReader (BufferReader_of (le_bytes 4 (version h) @ p @ m @
       le_bytes 4 (time h) @ le_bytes 4 (bits h) @ le_bytes 4 n)) =
     Inr (\<lparr>version = version h, prevHash = Buf p, merkleRoot = Buf m, height = None,
           reserved = Undefined, time = time h, timestamp = None, bits = bits h,
           nonce = Num n, solution = Undefined, hash = None\<rparr>, br')"
    "drop (pos br') (buf br') = []"
    by blast
  with b f u show ?thesis by simp
qed

theorem encode_decode_roundtrip_witness:
  "(valid_extended extended_example \<and> isBitcoinQuark (height extended_example)) \<and>
   (\<exists>b d br'. toBuffer extended_example = Inr b \<and>
      u_fromBufferReader (BufferReader_of b) = Inr (d, br') \<and>
      height d = Some 1 \<and> solution d = Buf [0xab, 0xcd] \<and>
      nonce d = Buf (1 # replicate 31 0)) \<and>
   (valid_legacy legacy_example \<and> \<not> isBitcoinQuark (Some (time legacy_example))) \<and>
   (\<exists>b d br'. toBuffer legacy_example = Inr b \<and>
      u_fromBufferReader (BufferReader_of b) = Inr (d, br') \<and>
      height d = None \<and> time d = 1231006505 \<and> nonce d = Num 2083236893)"
proof -
  have e: "valid_extended extended_example \<and> isBitcoinQuark (height extended_example) \<or>
           valid_legacy extended_example \<and> \<not> isBitcoinQuark (Some (time extended_example))"
    using valid_extended_example by blast
  have l: "valid_extended legacy_example \<and> isBitcoinQuark (height legacy_example) \<or>
           valid_legacy legacy_example \<and> \<not> isBitcoinQuark (Some (time legacy_example))"
    using valid_legacy_example by blast
  have fe: "height extended_example = Some 1" "solution extended_example = Buf [0xab, 0xcd]"
    "nonce extended_example = Buf (1 # replicate 31 0)"
    by (simp_all add: extended_example_def)
  have fl: "height legacy_example = None" "time legacy_example = 1231006505"
    "nonce legacy_example = Num 2083236893"
    by (simp_all add: legacy_example_def)
  show ?thesis
    using encode_decode_roundtrip[OF e] encode_decode_roundtrip[OF l]
      valid_extended_example valid_legacy_example
    unfolding fe fl by metis
qed

text \<open>
  The claim as the spec states it covers every legacy record. One whose time is 1 is
  written as 80 bytes, which the decoder takes for the start of an extended header; it
  runs out of bytes.
\<close>

theorem legacy_early_time_counterexample:
  "valid_legacy legacy_early \<and> time legacy_early = 1 \<and>
   (case toBuffer legacy_early of
      Inl e \<Rightarrow> False
    | Inr b \<Rightarrow> u_fromBufferReader (BufferReader_of b) = Inl DecodeError)"
proof -
  have v: "valid_legacy legacy_early"
    by (simp add: valid_legacy_def legacy_early_def legacy_example_def is_buf_len_def)
  have t: "time legacy_early = 1" by (simp add: legacy_early_def)
  have q: "isBitcoinQuark (Some (time legacy_early))"
    by (simp add: t isBitcoinQuark_def LOCKTIME_THRESHOLD_def)
  from legacy_early_decode_fails[OF v q] v t show ?thesis by auto
qed

subsection \<open>Compact target\<close>

text \<open>
  C4, as the code has it. For every 32-bit value \<open>b\<close> other than \<open>0\<close>,
  \<open>getTargetDifficulty(b)\<close> is \<open>mantissa * 2 ^ max 0 (8 * (exponent - 3))\<close> in exact
  arithmetic, with \<open>mantissa = b & 0x00ffffff = b mod 2 ^ 24\<close> and
  \<open>exponent = b >>> 24 = b div 2 ^ 24\<close>; when \<open>8 * (exponent - 3)\<close> is zero or negative
  the result is the mantissa, with no right shift. The argument \<open>0\<close> is taken for a
  missing argument: the header's own bits are decoded, by the same formula.
\<close>

theorem getTargetDifficulty_decodes_nonzero_bits:
  assumes "b \<noteq> 0" "b < 2 ^ 32"
  shows "getTargetDifficulty h (Some b) =
           (b mod 2 ^ 24) * 2 ^ nat (max 0 (8 * (int (b div 2 ^ 24) - 3))) \<and>
         (8 * (int (b div 2 ^ 24) - 3) \<le> 0 \<longrightarrow>
            getTargetDifficulty h (Some b) = b mod 2 ^ 24) \<and>
         getTargetDifficulty h (Some 0) = getTargetDifficulty h None \<and>
         (bits h < 2 ^ 32 \<longrightarrow> getTargetDifficulty h None =
            (bits h mod 2 ^ 24) * 2 ^ nat (max 0 (8 * (int (bits h div 2 ^ 24) - 3))))"
proof -
  have m: "nat (max 0 x) = nat x" for x :: int by simp
  show ?thesis
    using getTargetDifficulty_Some[OF assms, of h] getTargetDifficulty_None[of h]
    by (auto simp: m getTargetDifficulty_Some_0)
qed

theorem getTargetDifficulty_decodes_nonzero_bits_witness:
  "(0x1d00ffff :: nat) \<noteq> 0 \<and> (0x1d00ffff :: nat) < 2 ^ 32 \<and>
   getTargetDifficulty legacy_example (Some 0x1d00ffff) = 0xffff * 2 ^ 208 \<and>
   getTargetDifficulty legacy_example (Some 0x03123456) = 0x123456"
proof -
  have a: "(0x1d00ffff :: nat) \<noteq> 0" "(0x1d00ffff :: nat) < 2 ^ 32" by simp_all
  have b: "(0x03123456 :: nat) \<noteq> 0" "(0x03123456 :: nat) < 2 ^ 32" by simp_all
  show ?thesis
    using getTargetDifficulty_decodes_nonzero_bits[OF a, of legacy_example]
      getTargetDifficulty_decodes_nonzero_bits[OF b, of legacy_example]
    by simp
qed

text \<open>
  The claim as the spec states it covers the argument \<open>0\<close>, for which its formula gives
  \<open>0\<close>; on a header whose bits are \<open>0x1d00ffff\<close> the call returns that header's target.
\<close>

theorem getTargetDifficulty_zero_argument_counterexample:
  "getTargetDifficulty legacy_example (Some 0) \<noteq>
     (0 mod 2 ^ 24) * 2 ^ nat (max 0 (8 * (int (0 div 2 ^ 24) - 3)))"
proof -
  have "getTargetDifficulty legacy_example (Some 0) = getTargetDifficulty legacy_example None"
    by (rule getTargetDifficulty_Some_0)
  also have "\<dots> = (0x1d00ffff mod 2 ^ 24) * 2 ^ nat (8 * (int (0x1d00ffff div 2 ^ 24) - 3))"
    using getTargetDifficulty_None[of legacy_example] by (simp add: legacy_example_def)
  finally show ?thesis by simp
qed

subsection \<open>Difficulty\<close>

text \<open>
  C5, at an input where the code leaves the claim. The extended header of height 1 with
  the regtest bits \<open>0x207fffff\<close> has the quotient
  \<open>floor (target 0x1f7fffff * 10 ^ 8 / target 0x207fffff) = 390625\<close>, a string of six
  digits. \<open>decimalPos\<close> is \<open>6 - 8 = -2\<close>, and \<open>slice\<close> counts a negative index from the
  end of the string: the point is put two digits from the end, not eight, and the string
  handed to \<open>parseFloat\<close> is \<open>3906.25\<close>.
\<close>

theorem getDifficulty_regtest_extended:
  "isBitcoinQuark (height extended_example) \<and> bits extended_example = 0x207fffff \<and>
   getDifficulty extended_example = ParseFloat ''3906.25''"
proof -
  have q: "isBitcoinQuark (height extended_example)"
    by (simp add: extended_example_def isBitcoinQuark_def LOCKTIME_THRESHOLD_def)
  have b: "bits extended_example = 0x207fffff" by (simp add: extended_example_def)
  have g: "getTargetDifficulty extended_example (Some QUARK_GENESIS_BITS) = 0x7fffff * 2 ^ 224"
    using getTargetDifficulty_Some[of QUARK_GENESIS_BITS extended_example]
    by (simp add: QUARK_GENESIS_BITS_def)
  have c: "getTargetDifficulty extended_example None = 0x7fffff * 2 ^ 232"
    using getTargetDifficulty_None[of extended_example] by (simp add: b)
  have z: "\<not> loose_eq_0 (getTargetDifficulty extended_example None)"
    by (simp add: loose_eq_0_iff c)
  have r: "(0x7fffff * 2 ^ 224 * 10 ^ 8) div (0x7fffff * 2 ^ 232) = (390625 :: nat)"
    by simp
  have "getDifficulty extended_example =
     ParseFloat (slice_str ''390625'' 0 (Some (- 2)) @ ''.'' @ slice_str ''390625'' (- 2) None)"
    using q z
    by (simp add: getDifficulty_def Let_def g c[simplified] toString10_390625
        del: toString10.simps)
  then show ?thesis using q b by (simp add: slice_str_def)
qed

subsection \<open>Proof of work\<close>

text \<open>
  C6. Whenever the read of the header's id returns a string \<open>i\<close>, \<open>validProofOfWork\<close>
  returns, and it returns true if and only if \<open>i\<close>, parsed as a big integer from hex,
  is less than or equal to the target decoded from the header's bits.
\<close>

theorem validProofOfWork_iff:
  assumes "get_id sha h = Inr (i, h1)"
  shows "validProofOfWork sha h = Inr (BN_hex i \<le> getTargetDifficulty h None, h1)"
proof -
  have "h1 = h\<lparr>id_cache := Some i\<rparr>" using get_id_fields[OF assms] by simp
  then have "getTargetDifficulty h1 None = getTargetDifficulty h None"
    by (simp add: getTargetDifficulty_def)
  then show ?thesis using assms
    by (auto simp: validProofOfWork_def bindE_def cmp_def Let_def)
qed

theorem validProofOfWork_iff_witness:
  "get_id (\<lambda>b. 0) (legacy_example\<lparr>id_cache := Some ''00ff''\<rparr>) =
     Inr (''00ff'', legacy_example\<lparr>id_cache := Some ''00ff''\<rparr>) \<and>
   validProofOfWork (\<lambda>b. 0) (legacy_example\<lparr>id_cache := Some ''00ff''\<rparr>) =
     Inr (True, legacy_example\<lparr>id_cache := Some ''00ff''\<rparr>) \<and>
   validProofOfWork (\<lambda>b. 0) (legacy_example\<lparr>id_cache :=
       Some ''ffffffffffffffffffffffffffffffffffffffffffffffffffffffffffffffff''\<rparr>) =
     Inr (False, legacy_example\<lparr>id_cache :=
       Some ''ffffffffffffffffffffffffffffffffffffffffffffffffffffffffffffffff''\<rparr>) \<and>
   validProofOfWork (\<lambda>b. 0) legacy_example =
     Inr (True, legacy_example\<lparr>id_cache := Some (replicate 64 (CHR ''0''))\<rparr>)"
proof -
  let ?lo = "legacy_example\<lparr>id_cache := Some ''00ff''\<rparr>"
  let ?f = "''ffffffffffffffffffffffffffffffffffffffffffffffffffffffffffffffff''"
  let ?hi = "legacy_example\<lparr>id_cache := Some ?f\<rparr>"
  have lo: "get_id (\<lambda>b. 0) ?lo = Inr (''00ff'', ?lo)"
    by (rule get_id_cached) simp_all
  have hi: "get_id (\<lambda>b. 0) ?hi = Inr (?f, ?hi)"
    by (rule get_id_cached) simp_all
  have t: "getTargetDifficulty h None = 0xffff * 2 ^ 208" if "bits h = 0x1d00ffff" for h :: BlockHeader
    using getTargetDifficulty_None[of h] that by simp
  have tlo: "getTargetDifficulty ?lo None = 0xffff * 2 ^ 208"
    by (rule t) (simp add: legacy_example_def)
  have thi: "getTargetDifficulty ?hi None = 0xffff * 2 ^ 208"
    by (rule t) (simp add: legacy_example_def)
  have blo: "BN_hex ''00ff'' = 255" by (simp add: BN_hex_def hexval_def)
  have bhi: "BN_hex ?f = 2 ^ 256 - 1" by (simp add: BN_hex_def hexval_def)
  from valid_legacy_example toBuffer_legacy[of legacy_example]
  obtain b where b: "toBuffer legacy_example = Inr b" by blast
  have c: "id_cache legacy_example = None \<or> id_cache legacy_example = Some []"
    by (simp add: legacy_example_def)
  have z: "get_id (\<lambda>b. 0) legacy_example =
      Inr (replicate 64 (CHR ''0''),
           legacy_example\<lparr>id_cache := Some (replicate 64 (CHR ''0''))\<rparr>)"
    using get_id_fresh[OF c b, of "\<lambda>b. 0"] by (simp only: id_of_zero_digest)
  have tz: "getTargetDifficulty legacy_example None = 0xffff * 2 ^ 208"
    by (rule t) (simp add: legacy_example_def)
  have "validProofOfWork (\<lambda>b. 0) legacy_example =
      Inr (True, legacy_example\<lparr>id_cache := Some (replicate 64 (CHR ''0''))\<rparr>)"
    using validProofOfWork_iff[OF z] by (simp only: BN_hex_zeros tz) simp
  then show ?thesis
    using validProofOfWork_iff[OF lo] validProofOfWork_iff[OF hi] lo
    by (simp add: tlo thi blo bhi)
qed

subsection \<open>Plain objects\<close>




text \<open>
  C8, at the inputs where the code leaves the claim. For every extended header that
  the encoder takes for one, \<open>toObject\<close> returns a rendering, and \<open>_fromObject\<close> on
  the rendering returns prevHash, merkleRoot, reserved and solution as the header has
  them, but for \<open>nonce\<close> the hex string of the rendering, not the header's 32 bytes:
  the reversed bytes are computed and \<^verbatim>\<open>data.nonce\<close> is stored. \<open>fromObject\<close> then
  fails, since the constructor's check of the hash serialises the header and the nonce
  is no Buffer.
\<close>

theorem toObject_fromObject_nonce_string:
  assumes v: "valid_extended h" and q: "isBitcoinQuark (height h)"
  shows "\<exists>obj h1 i n. toObject sha h = Inr (obj, h1) \<and> u_fromObject (Some obj) = Inr i \<and>
      nonce h = Buf n \<and> nonce i = Str (toString_hex (rev n)) \<and>
      prevHash i = prevHash h \<and> merkleRoot i = merkleRoot h \<and>
      reserved i = reserved h \<and> solution i = solution h \<and>
      fromObject sha (Some obj) = Inl TypeError"
proof -
  from toBuffer_extended[OF v q] obtain p m hg r n s b where f:
    "prevHash h = Buf p" "merkleRoot h = Buf m" "height h = Some hg" "hg < 2 ^ 32"
    "reserved h = Buf r" "nonce h = Buf n" "solution h = Buf s"
    and b: "toBuffer h = Inr b"
    by blast
  have u: "version h < 2 ^ 32" "time h < 2 ^ 32" "bits h < 2 ^ 32"
    using v by (simp_all add: valid_extended_def)
  have q': "isBitcoinQuark (Some hg)" using q f(3) by simp
  from get_id_total[OF b, of sha] obtain hv where
    g: "get_id sha h = Inr (hv, h\<lparr>id_cache := Some hv\<rparr>)" and hv: "hv \<noteq> []"
    by blast
  let ?obj = "\<lparr>version = version h, prevHash = Str (toString_hex (reverse p)),
       merkleRoot = Str (toString_hex (reverse m)), height = Some hg,
       reserved = Str (toString_hex (reverse r)), time = time h, timestamp = None,
       bits = bits h, nonce = Str (toString_hex (reverse n)),
       solution = Str (toString_hex s), hash = Some hv\<rparr>"
  let ?i = "\<lparr>version = version h, prevHash = Buf p, merkleRoot = Buf m, height = Some hg,
       reserved = Buf r, time = time h, timestamp = Some (time h),
       bits = bits h, nonce = Str (toString_hex (reverse n)),
       solution = Buf s, hash = Some hv\<rparr>"
  have t: "toObject sha h = Inr (?obj, h\<lparr>id_cache := Some hv\<rparr>)"
    using q f g
    by (simp add: toObject_def bindE_def the_Buffer_def toString_hex_of_def)
  have o: "u_fromObject (Some ?obj) = Inr ?i"
    using q'
    by (simp add: u_fromObject_def Let_def rev_hex_roundtrip Buffer_hex_toString_hex)
       (simp add: reverse_def)
  have o2: "u_fromObject (Some ?i) = Inr ?i"
    using q' by (simp add: u_fromObject_def Let_def)
  let ?new = "\<lparr>version = version h, prevHash = Buf p, merkleRoot = Buf m, height = Some hg,
       reserved = Buf r, time = time h, timestamp = Some (time h),
       bits = bits h, nonce = Str (toString_hex (reverse n)),
       solution = Buf s, id_cache = None\<rparr>"
  have tb: "toBuffer ?new = Inl TypeError"
    by (rule toBuffer_string_nonce[where p = p and m = m and hg = hg and r = r])
       (use u f(4) q' in simp_all)
  have gi: "get_id sha ?new = Inl TypeError"
    by (simp add: get_id_def u_getHash_def bindE_def tb)
  have n: "new_BlockHeader sha (ArgObject ?i) = Inl TypeError"
    using hv by (simp add: new_BlockHeader_def u_from_def o2 bindE_def gi)
  have fo: "fromObject sha (Some ?obj) = Inl TypeError"
    by (simp add: fromObject_def o bindE_def n)
  show ?thesis
    using t o fo f by (simp add: reverse_def)
qed

theorem toObject_fromObject_nonce_string_witness:
  "(valid_extended extended_example \<and> isBitcoinQuark (height extended_example)) \<and>
   nonce extended_example = Buf (1 # replicate 31 0) \<and>
   (\<exists>obj h1 i. toObject (\<lambda>b. 0) extended_example = Inr (obj, h1) \<and>
      u_fromObject (Some obj) = Inr i \<and>
      nonce i = Str (replicate 62 (CHR ''0'') @ ''01'') \<and>
      fromObject (\<lambda>b. 0) (Some obj) = Inl TypeError)"
proof -
  have n: "nonce extended_example = Buf (1 # replicate 31 0)"
    by (simp add: extended_example_def)
  have x: "toString_hex (rev (1 # replicate 31 0)) = replicate 62 (CHR ''0'') @ ''01''"
    by (simp add: toString_hex_append toString_hex_zeros hexdigit_def)
  from valid_extended_example have v: "valid_extended extended_example"
    and q: "isBitcoinQuark (height extended_example)" by simp_all
  from toObject_fromObject_nonce_string[OF v q, of "\<lambda>b. 0"]
  obtain obj h1 i k where r: "toObject (\<lambda>b. 0) extended_example = Inr (obj, h1)"
    "u_fromObject (Some obj) = Inr i" "nonce extended_example = Buf k"
    "nonce i = Str (toString_hex (rev k))" "fromObject (\<lambda>b. 0) (Some obj) = Inl TypeError"
    by blast
  from r(3) n have "k = 1 # replicate 31 0" by simp
  with r(4) x have "nonce i = Str (replicate 62 (CHR ''0'') @ ''01'')" by simp
  with r(1,2,5) v q n show ?thesis by blast
qed

subsection \<open>The cached id\<close>

text \<open>
  C9. On a header whose slot \<open>_id\<close> is empty and whose serialisation is \<open>b\<close>, the read of
  \<open>id\<close> (or \<open>hash\<close>) returns the hex digits of the byte-reversed double hash of \<open>b\<close> and
  stores them in the slot. Every instance state that holds this value in the slot,
  whatever its other fields have become, returns it on a read and is left as it is; the
  read does not depend on the hash function, so nothing is computed again.
\<close>

theorem id_computed_once_then_cached:
  assumes "id_cache h = None" "toBuffer h = Inr b"
  shows "get_id sha h =
           Inr (toString_hex (reverse (digest_bytes (sha b))),
                h\<lparr>id_cache := Some (toString_hex (reverse (digest_bytes (sha b))))\<rparr>) \<and>
         (\<forall>h2 sha2. id_cache h2 = Some (toString_hex (reverse (digest_bytes (sha b)))) \<longrightarrow>
            get_id sha2 h2 = Inr (toString_hex (reverse (digest_bytes (sha b))), h2))"
  using get_id_fresh[of h b sha] assms get_id_cached id_string_not_empty by simp

theorem id_computed_once_then_cached_witness:
  "id_cache legacy_example = None \<and>
   get_id (\<lambda>b. 0) legacy_example =
     Inr (toString_hex (reverse (digest_bytes 0)),
          legacy_example\<lparr>id_cache := Some (toString_hex (reverse (digest_bytes 0)))\<rparr>) \<and>
   get_id (\<lambda>b. 1)
      (legacy_example\<lparr>time := 5, nonce := Num 7,
         id_cache := Some (toString_hex (reverse (digest_bytes 0)))\<rparr>) =
     Inr (toString_hex (reverse (digest_bytes 0)),
          legacy_example\<lparr>time := 5, nonce := Num 7,
            id_cache := Some (toString_hex (reverse (digest_bytes 0)))\<rparr>)"
proof -
  have c: "id_cache legacy_example = None" by (simp add: legacy_example_def)
  from valid_legacy_example toBuffer_legacy[of legacy_example]
  obtain b where b: "toBuffer legacy_example = Inr b" by blast
  have m: "id_cache (legacy_example\<lparr>time := 5, nonce := Num 7,
         id_cache := Some (toString_hex (reverse (digest_bytes 0)))\<rparr>) =
       Some (toString_hex (reverse (digest_bytes 0)))" by simp
  from id_computed_once_then_cached[OF c b, of "\<lambda>b. 0"] c m show ?thesis by blast
qed

text \<open>
  C10. Assigning a value to \<open>id\<close> or \<open>hash\<close> runs the setter, which returns without an
  exception and leaves the instance as it was; a read after the assignment is the read
  without it, whatever value was assigned.
\<close>

theorem set_id_noop:
  "set_id v h = h \<and> get_id sha (set_id v h) = get_id sha h \<and>
   get_id sha (set_id v h) = get_id sha (set_id v' h)"
  by (simp add: set_id_def)

end
